theory Spec2Isabelle
  imports Complex_Main
begin

section \<open>Standard atmosphere: table lookup and linear interpolation\<close>

text \<open>
  A shallow embedding of \<^verbatim>\<open>StandardAtmosphere.py\<close>. Python numbers (the integer
  altitudes of the table, the decimal literals of the four quantity columns and the
  queried altitude) are modelled as exact real numbers; rounding of the machine
  arithmetic is outside the model. Every place where the Python can raise
  (an index out of range, a division by zero) is a branch returning an error value,
  and the text written by \<^verbatim>\<open>print\<close> is returned as a list of lines.
\<close>

subsection \<open>Errors and list indexing\<close>

datatype py_error = IndexError | ZeroDivisionError | OverflowError

text \<open>
  Python's \<^verbatim>\<open>xs[i]\<close> on a list of length \<open>n\<close>: the indices \<open>0 .. n - 1\<close> read from the
  front, the indices \<open>-n .. -1\<close> from the back, any other index raises.
\<close>

definition py_get :: "'a list \<Rightarrow> int \<Rightarrow> py_error + 'a" where
  "py_get xs i =
     (if 0 \<le> i
      then (if i < int (length xs) then Inr (xs ! nat i) else Inl IndexError)
      else (if - int (length xs) \<le> i then Inr (xs ! nat (int (length xs) + i))
            else Inl IndexError))"

text \<open>Python's true division \<^verbatim>\<open>a / b\<close>, which raises on a zero divisor.\<close>

definition py_truediv :: "real \<Rightarrow> real \<Rightarrow> py_error + real" where
  "py_truediv a b = (if b = 0 then Inl ZeroDivisionError else Inr (a / b))"

text \<open>\<^verbatim>\<open>math.pow\<close> at an integer exponent; the source only calls it with base 10.\<close>

definition math_pow :: "real \<Rightarrow> int \<Rightarrow> real" where
  "math_pow x n = x powi n"

subsection \<open>The look-up table\<close>

record 'a atmosphere_table =
  altitude :: "'a list"
  temperature :: "'a list"
  pressure :: "'a list"
  density :: "'a list"
  dynamic_viscosity :: "'a list"

definition standard_atmosphere_lookup :: "real atmosphere_table" where
  "standard_atmosphere_lookup = \<lparr>
     altitude = [-1000, 0, 1000, 2000, 3000, 4000, 5000, 6000, 7000, 8000,
       9000, 10000, 15000, 20000, 25000, 30000, 40000, 50000, 60000, 70000,
       80000],
     temperature = [21.5, 15, 8.5, 2, -4.49, -10.98, -17.47, -23.96, -30.45,
       -36.94, -43.42, -49.9, -56.5, -56.5, -51.6, -46.64, -22.8, -2.5, -26.13,
       -53.57, -74.51],
     pressure = [11.39, 10.13, 8.988, 7.95, 7.012, 6.166, 5.405, 4.722, 4.111,
       3.565, 3.08, 2.65, 1.211, 0.5529, 0.2549, 0.1197, 0.0287, 0.007978,
       0.002196, 0.00052, 0.00011],
     density = [1.347, 1.225, 1.112, 1.007, 0.9093, 0.8194, 0.7364, 0.6601,
       0.59, 0.5258, 0.4671, 0.4135, 0.1948, 0.08891, 0.04008, 0.01841,
       0.003996, 0.001027, 0.0003097, 0.00008283, 0.00001846],
     dynamic_viscosity = [1.821, 1.789, 1.758, 1.726, 1.694, 1.661, 1.628,
       1.595, 1.561, 1.527, 1.493, 1.458, 1.422, 1.422, 1.448, 1.475, 1.601,
       1.704, 1.584, 1.438, 1.321] \<rparr>"

subsection \<open>get_index\<close>

text \<open>
  The \<^verbatim>\<open>while(data[i] < value): i += 1\<close> loop. Reading \<^verbatim>\<open>data[i]\<close> past the end
  raises, which ends the loop; the counter only grows, so it is a natural number.
\<close>

function get_index_loop :: "real \<Rightarrow> real list \<Rightarrow> nat \<Rightarrow> py_error + nat" where
  "get_index_loop v data i =
     (case py_get data (int i) of
        Inl e \<Rightarrow> Inl e
      | Inr d \<Rightarrow> if d < v then get_index_loop v data (i + 1) else Inr i)"
  by pat_completeness auto
termination
  by (relation "measure (\<lambda>(v, data, i). length data - i)")
     (auto simp: py_get_def Let_def split: if_splits)

text \<open>The result \<^verbatim>\<open>None\<close> is \<open>Inr None\<close>, an index \<open>i\<close> is \<open>Inr (Some i)\<close>.\<close>

definition get_index :: "real \<Rightarrow> real list \<Rightarrow> py_error + nat option" where
  "get_index v data =
     (case py_get data (-1) of
        Inl e \<Rightarrow> Inl e
      | Inr l \<Rightarrow>
          if v > l then Inr None
          else (case py_get data 0 of
                  Inl e \<Rightarrow> Inl e
                | Inr f \<Rightarrow>
                    if v < f then Inr (Some 0)
                    else (case get_index_loop v data 1 of
                            Inl e \<Rightarrow> Inl e
                          | Inr i \<Rightarrow> Inr (Some i))))"

subsection \<open>linear_interpolate\<close>

definition linear_interpolate :: "real \<Rightarrow> real list \<Rightarrow> real list \<Rightarrow> py_error + real" where
  "linear_interpolate target_x x_data y_data =
     (case get_index target_x x_data of
        Inl e \<Rightarrow> Inl e
      | Inr r \<Rightarrow>
          let index0 = (case r of None \<Rightarrow> int (length x_data) - 1 | Some i \<Rightarrow> int i);
              index = (if index0 = 0 then 1 else index0)
          in (case py_get x_data index of Inl e \<Rightarrow> Inl e | Inr x_n1 \<Rightarrow>
              (case py_get x_data (index - 1) of Inl e \<Rightarrow> Inl e | Inr x_n \<Rightarrow>
              (case py_get y_data index of Inl e \<Rightarrow> Inl e | Inr y_n1 \<Rightarrow>
              (case py_get y_data (index - 1) of Inl e \<Rightarrow> Inl e | Inr y_n \<Rightarrow>
              (case py_truediv (y_n1 - y_n) (x_n1 - x_n) of Inl e \<Rightarrow> Inl e | Inr slope \<Rightarrow>
                 Inr (y_n + slope * (target_x - x_n))))))))"

subsection \<open>The accessors\<close>

text \<open>
  Each accessor returns the lines it printed together with its result. The bounds check,
  the same expression in the four accessors, reads \<^verbatim>\<open>altitude[0]\<close> and
  \<^verbatim>\<open>altitude[-1]\<close> of the table; \<^verbatim>\<open>or\<close> evaluates its right operand only when
  the left one is false.
\<close>

definition out_of_bounds :: "real \<Rightarrow> py_error + bool" where
  "out_of_bounds a =
     (case py_get (altitude standard_atmosphere_lookup) 0 of
        Inl e \<Rightarrow> Inl e
      | Inr lo \<Rightarrow>
          if a < lo then Inr True
          else (case py_get (altitude standard_atmosphere_lookup) (-1) of
                  Inl e \<Rightarrow> Inl e
                | Inr hi \<Rightarrow> Inr (a > hi)))"

definition get_pressure :: "real \<Rightarrow> string list \<times> (py_error + real)" where
  "get_pressure a =
     (case out_of_bounds a of
        Inl e \<Rightarrow> ([], Inl e)
      | Inr b \<Rightarrow>
          let out = (if b then [''StandardAtmosphere get_pressure() altitude out of bounds, proceeding with best available data''] else [])
          in (case linear_interpolate a (altitude standard_atmosphere_lookup)
                     (pressure standard_atmosphere_lookup) of
                Inl e \<Rightarrow> (out, Inl e)
              | Inr p \<Rightarrow>
                  let p1 = (if p < 0 then 0 else p);
                      p2 = p1 * math_pow 10 4
                  in (out, Inr p2)))"

definition get_temperature :: "real \<Rightarrow> string list \<times> (py_error + real)" where
  "get_temperature a =
     (case out_of_bounds a of
        Inl e \<Rightarrow> ([], Inl e)
      | Inr b \<Rightarrow>
          let out = (if b then [''StandardAtmosphere get_temperature() altitude out of bounds, proceeding with best available data''] else [])
          in (case linear_interpolate a (altitude standard_atmosphere_lookup)
                     (temperature standard_atmosphere_lookup) of
                Inl e \<Rightarrow> (out, Inl e)
              | Inr t \<Rightarrow> (out, Inr t)))"

definition get_density :: "real \<Rightarrow> string list \<times> (py_error + real)" where
  "get_density a =
     (case out_of_bounds a of
        Inl e \<Rightarrow> ([], Inl e)
      | Inr b \<Rightarrow>
          let out = (if b then [''StandardAtmosphere get_density() altitude out of bounds, proceeding with best available data''] else [])
          in (case linear_interpolate a (altitude standard_atmosphere_lookup)
                     (density standard_atmosphere_lookup) of
                Inl e \<Rightarrow> (out, Inl e)
              | Inr d \<Rightarrow>
                  let d1 = (if d < 0 then 0 else d)
                  in (out, Inr d1)))"

definition get_dynamic_viscocity :: "real \<Rightarrow> string list \<times> (py_error + real)" where
  "get_dynamic_viscocity a =
     (case out_of_bounds a of
        Inl e \<Rightarrow> ([], Inl e)
      | Inr b \<Rightarrow>
          let out = (if b then [''StandardAtmosphere get_dynamic_viscocity() altitude out of bounds, proceeding with best available data''] else [])
          in (case linear_interpolate a (altitude standard_atmosphere_lookup)
                     (dynamic_viscosity standard_atmosphere_lookup) of
                Inl e \<Rightarrow> (out, Inl e)
              | Inr v \<Rightarrow>
                  let v1 = (if v < 0 then 0 else v);
                      v2 = v1 * math_pow 10 (-5)
                  in (out, Inr v2)))"

subsection \<open>get_standard_atmosphere\<close>

text \<open>
  The dictionary is filled in the source's order; a call that raises ends the function,
  after the lines printed so far.
\<close>

definition get_standard_atmosphere ::
  "real \<Rightarrow> string list \<times> (py_error + (string \<rightharpoonup> real))" where
  "get_standard_atmosphere a =
     (case get_pressure a of
        (o1, Inl e) \<Rightarrow> (o1, Inl e)
      | (o1, Inr p) \<Rightarrow>
     (case get_temperature a of
        (o2, Inl e) \<Rightarrow> (o1 @ o2, Inl e)
      | (o2, Inr t) \<Rightarrow>
     (case get_dynamic_viscocity a of
        (o3, Inl e) \<Rightarrow> (o1 @ o2 @ o3, Inl e)
      | (o3, Inr mu) \<Rightarrow>
     (case get_density a of
        (o4, Inl e) \<Rightarrow> (o1 @ o2 @ o3 @ o4, Inl e)
      | (o4, Inr rho) \<Rightarrow>
          (o1 @ o2 @ o3 @ o4,
           Inr (Map.empty(''pressure'' \<mapsto> p, ''temperature'' \<mapsto> t,
                  ''dynamic_viscosity'' \<mapsto> mu, ''density'' \<mapsto> rho,
                  ''altitude'' \<mapsto> a)))))))"

subsection \<open>The locator as the specification words it\<close>

text \<open>
  Section 4.1 of the specification: the sentinel above the last element, index 0 below
  the first, otherwise the smallest index whose element is not less than the query.
  This definition follows the specification's words, to be compared with \<open>get_index\<close>.
\<close>

fun smallest_index_ge :: "real \<Rightarrow> real list \<Rightarrow> nat option" where
  "smallest_index_ge v [] = None"
| "smallest_index_ge v (x # xs) =
     (if v \<le> x then Some 0 else map_option Suc (smallest_index_ge v xs))"

definition locate_spec :: "real \<Rightarrow> real list \<Rightarrow> nat option" where
  "locate_spec v xs =
     (if last xs < v then None
      else if v < xs ! 0 then Some 0
      else smallest_index_ge v xs)"

section \<open>Properties\<close>

subsection \<open>Indexing\<close>

lemma py_get_nat: "i < length xs \<Longrightarrow> py_get xs (int i) = Inr (xs ! i)"
  by (simp add: py_get_def)

lemma py_get_minus_one: "xs \<noteq> [] \<Longrightarrow> py_get xs (-1) = Inr (last xs)"
  by (cases xs rule: rev_cases) (simp_all add: py_get_def Let_def nat_add_distrib)

lemma py_get_zero: "xs \<noteq> [] \<Longrightarrow> py_get xs 0 = Inr (xs ! 0)"
  by (simp add: py_get_def)

subsection \<open>The scan of get_index\<close>

text \<open>
  If some element at or after the start is not less than the value, the scan stops at
  the first such element, never reading past it.
\<close>

lemma get_index_loop_bound:
  "i \<le> k \<Longrightarrow> k < length data \<Longrightarrow> v \<le> data ! k \<Longrightarrow>
   \<exists>j. get_index_loop v data i = Inr j \<and> i \<le> j \<and> j \<le> k \<and> v \<le> data ! j
       \<and> (\<forall>m. i \<le> m \<and> m < j \<longrightarrow> data ! m < v)"
proof (induction "k - i" arbitrary: i)
  case 0
  then have "i = k" by simp
  with 0 show ?case
    by (subst get_index_loop.simps) (auto simp: py_get_nat)
next
  case (Suc n)
  then have ik: "i < k" and il: "i < length data" by simp_all
  show ?case
  proof (cases "data ! i < v")
    case False
    then show ?thesis using il ik
      by (subst get_index_loop.simps) (auto simp: py_get_nat)
  next
    case True
    from Suc.hyps(2) ik have "n = k - (i + 1)" by simp
    from Suc.hyps(1)[OF this] ik Suc.prems
    obtain j where j: "get_index_loop v data (i + 1) = Inr j" "i + 1 \<le> j" "j \<le> k"
      "v \<le> data ! j" "\<forall>m. i + 1 \<le> m \<and> m < j \<longrightarrow> data ! m < v"
      by auto
    have "\<forall>m. i \<le> m \<and> m < j \<longrightarrow> data ! m < v"
    proof (intro allI impI)
      fix m assume "i \<le> m \<and> m < j"
      then show "data ! m < v" using True j(5) by (cases "m = i") auto
    qed
    with j True il show ?thesis
      by (subst get_index_loop.simps) (auto simp: py_get_nat)
  qed
qed

lemma get_index_above:
  "data \<noteq> [] \<Longrightarrow> last data < v \<Longrightarrow> get_index v data = Inr None"
  by (simp add: get_index_def py_get_minus_one)

lemma get_index_below:
  "data \<noteq> [] \<Longrightarrow> v \<le> last data \<Longrightarrow> v < data ! 0 \<Longrightarrow> get_index v data = Inr (Some 0)"
  by (simp add: get_index_def py_get_minus_one py_get_zero)

lemma get_index_inside:
  assumes "2 \<le> length data" "v \<le> last data" "data ! 0 \<le> v"
  shows "\<exists>j. get_index v data = Inr (Some j) \<and> 1 \<le> j \<and> j < length data \<and> v \<le> data ! j
       \<and> (\<forall>m. 1 \<le> m \<and> m < j \<longrightarrow> data ! m < v)"
proof -
  from assms(1) have ne: "data \<noteq> []" by auto
  let ?k = "length data - 1"
  have "1 \<le> ?k" "?k < length data" "v \<le> data ! ?k"
    using assms ne by (simp_all add: last_conv_nth)
  from get_index_loop_bound[OF this]
  obtain j where "get_index_loop v data 1 = Inr j" "1 \<le> j" "j \<le> ?k" "v \<le> data ! j"
    "\<forall>m. 1 \<le> m \<and> m < j \<longrightarrow> data ! m < v" by blast
  then show ?thesis using assms ne
    by (auto simp: get_index_def py_get_minus_one py_get_zero)
qed

lemma get_index_None_iff:
  assumes "2 \<le> length data"
  shows "get_index v data = Inr None \<longleftrightarrow> last data < v"
proof (cases "last data < v")
  case True
  moreover from assms have "data \<noteq> []" by auto
  ultimately show ?thesis using get_index_above[of data v] by simp
next
  case False
  from assms have ne: "data \<noteq> []" by auto
  show ?thesis
  proof (cases "v < data ! 0")
    case True
    with False ne show ?thesis using get_index_below[of data v] by simp
  next
    case f: False
    with False assms get_index_inside[of data v] show ?thesis by auto
  qed
qed


subsection \<open>The interval used by linear_interpolate\<close>

lemma linear_interpolate_at_index:
  assumes len: "2 \<le> length x_data" and sorted: "sorted_wrt (<) x_data"
    and ylen: "length y_data = length x_data"
    and r: "get_index t x_data = Inr r"
    and i: "i = (case r of None \<Rightarrow> length x_data - 1 | Some j \<Rightarrow> if j = 0 then 1 else j)"
    and bounds: "1 \<le> i" "i < length x_data"
  shows "linear_interpolate t x_data y_data =
          Inr (y_data ! (i - 1) + (y_data ! i - y_data ! (i - 1)) / (x_data ! i - x_data ! (i - 1))
                 * (t - x_data ! (i - 1)))"
proof -
  have idx: "(let index0 = (case r of None \<Rightarrow> int (length x_data) - 1 | Some i \<Rightarrow> int i)
             in if index0 = 0 then 1 else index0) = int i"
    using i bounds len by (auto simp: Let_def split: option.splits)
  have i1: "int i - 1 = int (i - 1)" using bounds by simp
  have lt: "x_data ! (i - 1) < x_data ! i"
    using sorted bounds by (simp add: sorted_wrt_iff_nth_less)
  show ?thesis
    unfolding linear_interpolate_def r sum.case using idx[unfolded Let_def] lt bounds ylen
    by (simp add: Let_def i1 py_get_nat py_truediv_def del: of_nat_diff)
qed

lemma linear_interpolate_interval:
  assumes len: "2 \<le> length x_data" and sorted: "sorted_wrt (<) x_data"
    and ylen: "length y_data = length x_data"
  shows "\<exists>i. 1 \<le> i \<and> i < length x_data
      \<and> linear_interpolate t x_data y_data =
          Inr (y_data ! (i - 1) + (y_data ! i - y_data ! (i - 1)) / (x_data ! i - x_data ! (i - 1))
                 * (t - x_data ! (i - 1)))
      \<and> (t \<le> x_data ! i \<or> i = length x_data - 1)
      \<and> (x_data ! (i - 1) < t \<or> i = 1)"
proof -
  from len have ne: "x_data \<noteq> []" by auto
  note step = linear_interpolate_at_index[OF len sorted ylen]
  show ?thesis
  proof (cases "last x_data < t")
    case True
    have r: "get_index t x_data = Inr None" using get_index_above[OF ne True] .
    have "x_data ! (length x_data - 1 - 1) < x_data ! (length x_data - 1)"
      using sorted len by (simp add: sorted_wrt_iff_nth_less)
    moreover have "x_data ! (length x_data - 1) < t"
      using True ne by (simp add: last_conv_nth)
    ultimately have "x_data ! (length x_data - 1 - 1) < t" by simp
    moreover have "linear_interpolate t x_data y_data =
          Inr (y_data ! (length x_data - 1 - 1)
               + (y_data ! (length x_data - 1) - y_data ! (length x_data - 1 - 1))
                 / (x_data ! (length x_data - 1) - x_data ! (length x_data - 1 - 1))
                 * (t - x_data ! (length x_data - 1 - 1)))"
      using len by (intro step[OF r]) simp_all
    moreover have "1 \<le> length x_data - 1" "length x_data - 1 < length x_data"
      using len by linarith+
    ultimately show ?thesis
      by (intro exI[of _ "length x_data - 1"]) simp
  next
    case False
    show ?thesis
    proof (cases "t < x_data ! 0")
      case True
      have r: "get_index t x_data = Inr (Some 0)" using get_index_below[OF ne _ True] False by simp
      have "x_data ! 0 < x_data ! 1" using sorted len by (simp add: sorted_wrt_iff_nth_less)
      then show ?thesis
        using step[OF r, of 1] len True
        by (intro exI[of _ 1]) auto
    next
      case f: False
      from get_index_inside[of x_data t] len False f
      obtain j where j: "get_index t x_data = Inr (Some j)" "1 \<le> j" "j < length x_data"
        "t \<le> x_data ! j" "\<forall>m. 1 \<le> m \<and> m < j \<longrightarrow> x_data ! m < t" by auto
      have "x_data ! (j - 1) < t \<or> j = 1"
      proof (cases "j = 1")
        case False
        with j(2) have "1 \<le> j - 1 \<and> j - 1 < j" by auto
        with j(5) show ?thesis by blast
      qed simp
      then show ?thesis
        using step[OF j(1), of j] j
        by (intro exI[of _ j]) auto
    qed
  qed
qed

subsection \<open>get_index at the breakpoints\<close>

lemma get_index_breakpoint:
  assumes len: "2 \<le> length data" and sorted: "sorted_wrt (<) data"
    and k: "1 \<le> k" "k < length data"
  shows "get_index (data ! k) data = Inr (Some k)"
proof -
  from len have ne: "data \<noteq> []" by auto
  have nth_less: "data ! i < data ! j" if "i < j" "j < length data" for i j
    using sorted that by (simp add: sorted_wrt_iff_nth_less)
  have "data ! 0 \<le> data ! k" using nth_less[of 0 k] k by simp
  moreover have "data ! k \<le> last data"
  proof (cases "k = length data - 1")
    case True
    then show ?thesis using ne by (simp add: last_conv_nth)
  next
    case False
    with k have "k < length data - 1" by simp
    from nth_less[OF this] ne show ?thesis by (simp add: last_conv_nth)
  qed
  ultimately have l: "py_get data (-1) = Inr (last data)" "\<not> last data < data ! k"
      "py_get data 0 = Inr (data ! 0)" "\<not> data ! k < data ! 0"
    using ne by (simp_all add: py_get_minus_one py_get_zero)
  from get_index_loop_bound[of 1 k data "data ! k"] k
  obtain j where j: "get_index_loop (data ! k) data 1 = Inr j" "1 \<le> j" "j \<le> k"
    "data ! k \<le> data ! j" by auto
  have "j = k"
  proof (rule ccontr)
    assume "j \<noteq> k"
    with j(3) have "j < k" by simp
    from nth_less[OF this k(2)] j(4) show False by simp
  qed
  with j(1) l show ?thesis by (simp add: get_index_def)
qed

lemma get_index_first_breakpoint:
  assumes len: "2 \<le> length data" and sorted: "sorted_wrt (<) data"
  shows "get_index (data ! 0) data = Inr (Some 1)"
proof -
  from len have ne: "data \<noteq> []" by auto
  have nth_less: "data ! i < data ! j" if "i < j" "j < length data" for i j
    using sorted that by (simp add: sorted_wrt_iff_nth_less)
  have "data ! 0 \<le> last data"
    using nth_less[of 0 "length data - 1"] len ne by (simp add: last_conv_nth)
  then have l: "py_get data (-1) = Inr (last data)" "\<not> last data < data ! 0"
      "py_get data 0 = Inr (data ! 0)"
    using ne by (simp_all add: py_get_minus_one py_get_zero)
  have "data ! 0 < data ! 1" using nth_less[of 0 1] len by simp
  then have "get_index_loop (data ! 0) data 1 = Inr 1"
    using len by (subst get_index_loop.simps) (simp add: py_get_nat[of 1 data, simplified])
  with l show ?thesis by (simp add: get_index_def)
qed

subsection \<open>The table\<close>

lemma table_sorted: "sorted_wrt (<) (altitude standard_atmosphere_lookup)"
  by (simp add: standard_atmosphere_lookup_def)

lemma table_lengths:
  "length (altitude standard_atmosphere_lookup) = 21"
  "length (temperature standard_atmosphere_lookup) = 21"
  "length (pressure standard_atmosphere_lookup) = 21"
  "length (density standard_atmosphere_lookup) = 21"
  "length (dynamic_viscosity standard_atmosphere_lookup) = 21"
  by (simp_all add: standard_atmosphere_lookup_def)

text \<open>
  Claim C9. The table satisfies the invariant of the data model: the four quantity
  columns have the length of the altitude column, that length is at least 2 (it is 21),
  and the altitude column is strictly increasing.
\<close>

theorem table_invariant:
  "length (temperature standard_atmosphere_lookup) = length (altitude standard_atmosphere_lookup)
   \<and> length (pressure standard_atmosphere_lookup) = length (altitude standard_atmosphere_lookup)
   \<and> length (density standard_atmosphere_lookup) = length (altitude standard_atmosphere_lookup)
   \<and> length (dynamic_viscosity standard_atmosphere_lookup) = length (altitude standard_atmosphere_lookup)
   \<and> 2 \<le> length (altitude standard_atmosphere_lookup)
   \<and> sorted_wrt (<) (altitude standard_atmosphere_lookup)"
  by (simp add: standard_atmosphere_lookup_def)

subsection \<open>The breakpoint locator\<close>

text \<open>Away from the first breakpoint the source agrees with the specification's locator.\<close>

lemma smallest_index_ge_first:
  "j < length xs \<Longrightarrow> v \<le> xs ! j \<Longrightarrow> (\<forall>m. m < j \<longrightarrow> xs ! m < v) \<Longrightarrow>
   smallest_index_ge v xs = Some j"
proof (induction xs arbitrary: j)
  case Nil
  then show ?case by simp
next
  case (Cons x xs)
  show ?case
  proof (cases j)
    case 0
    with Cons.prems show ?thesis by simp
  next
    case (Suc i)
    from Cons.prems(3) Suc have x: "x < v" by (auto dest: spec[of _ 0])
    have "\<forall>m. m < i \<longrightarrow> xs ! m < v"
    proof (intro allI impI)
      fix m assume "m < i"
      then have "Suc m < j" using Suc by simp
      with Cons.prems(3) have "(x # xs) ! Suc m < v" by blast
      then show "xs ! m < v" by simp
    qed
    with Cons.IH[of i] Cons.prems Suc have "smallest_index_ge v xs = Some i" by simp
    with x Suc show ?thesis by simp
  qed
qed

lemma get_index_eq_locate_spec:
  assumes "sorted_wrt (<) data" and "2 \<le> length data" and "v \<noteq> data ! 0"
  shows "get_index v data = Inr (locate_spec v data)"
proof -
  from assms(2) have ne: "data \<noteq> []" by auto
  show ?thesis
  proof (cases "last data < v")
    case True
    then show ?thesis using get_index_above[OF ne] by (simp add: locate_spec_def)
  next
    case False
    show ?thesis
    proof (cases "v < data ! 0")
      case True
      with False ne show ?thesis using get_index_below[of data v] by (simp add: locate_spec_def)
    next
      case f: False
      with assms(3) have lt: "data ! 0 < v" by simp
      from get_index_inside[OF assms(2), of v] False f
      obtain j where j: "get_index v data = Inr (Some j)" "1 \<le> j" "j < length data"
        "v \<le> data ! j" "\<forall>m. 1 \<le> m \<and> m < j \<longrightarrow> data ! m < v" by auto
      have "\<forall>m. m < j \<longrightarrow> data ! m < v"
      proof (intro allI impI)
        fix m assume "m < j"
        then show "data ! m < v" using lt j(5) by (cases "m = 0") auto
      qed
      from smallest_index_ge_first[OF j(3,4) this] j(1) False f
      show ?thesis by (simp add: locate_spec_def)
    qed
  qed
qed

text \<open>
  Claim C1, as amended. For a strictly increasing sequence of at least two elements,
  \<open>get_index\<close> returns \<open>None\<close> exactly when the value is greater than the last element,
  and index 0 when the value is less than the first. Otherwise the scan starts at
  index 1, so the result is the smallest index \<open>j \<ge> 1\<close> whose element is not less than
  the value: a value equal to a breakpoint other than the first yields that
  breakpoint's own index, and a value equal to the first breakpoint yields 1. At every
  value other than the first breakpoint the result is that of the specification's
  locator.
\<close>

theorem get_index_amended:
  assumes "sorted_wrt (<) data" and "2 \<le> length data"
  shows "(get_index v data = Inr None \<longleftrightarrow> last data < v)
    \<and> (v < data ! 0 \<longrightarrow> get_index v data = Inr (Some 0))
    \<and> (data ! 0 \<le> v \<and> v \<le> last data \<longrightarrow>
         (\<exists>j. get_index v data = Inr (Some j) \<and> 1 \<le> j \<and> j < length data \<and> v \<le> data ! j
              \<and> (\<forall>m. 1 \<le> m \<and> m < j \<longrightarrow> data ! m < v)))
    \<and> (\<forall>k. 1 \<le> k \<and> k < length data \<longrightarrow> get_index (data ! k) data = Inr (Some k))
    \<and> get_index (data ! 0) data = Inr (Some 1)
    \<and> (v \<noteq> data ! 0 \<longrightarrow> get_index v data = Inr (locate_spec v data))"
proof -
  from assms(2) have ne: "data \<noteq> []" by auto
  have "data ! 0 \<le> last data"
    using assms ne sorted_wrt_nth_less[of "(<)" data 0 "length data - 1"]
    by (cases "length data = 1") (auto simp add: last_conv_nth)
  then have below: "v < data ! 0 \<longrightarrow> get_index v data = Inr (Some 0)"
    using get_index_below[OF ne, of v] by auto
  show ?thesis
    using get_index_None_iff[OF assms(2)] below get_index_inside[OF assms(2)]
      get_index_breakpoint[OF assms(2,1)] get_index_first_breakpoint[OF assms(2,1)]
      get_index_eq_locate_spec[OF assms]
    by blast
qed

text \<open>
  Claim C1 as stated fails at the first breakpoint: at altitude -1000, the first entry
  of the table, the smallest index whose element is not less than the value is 0 (the
  breakpoint's own index), and \<open>get_index\<close> returns 1.
\<close>

theorem get_index_first_breakpoint_counterexample:
  "get_index (-1000) (altitude standard_atmosphere_lookup) = Inr (Some 1)
   \<and> locate_spec (-1000) (altitude standard_atmosphere_lookup) = Some 0
   \<and> altitude standard_atmosphere_lookup ! 0 = -1000"
  by (simp add: get_index_def py_get_def locate_spec_def standard_atmosphere_lookup_def
        get_index_loop.simps)

theorem get_index_amended_witness:
  "sorted_wrt (<) [0, 10, 20 :: real] \<and> 2 \<le> length [0, 10, 20 :: real]
   \<and> get_index 25 [0, 10, 20] = Inr None
   \<and> get_index (-5) [0, 10, 20] = Inr (Some 0)
   \<and> get_index 7 [0, 10, 20] = Inr (Some 1)
   \<and> get_index 10 [0, 10, 20] = Inr (Some 1)
   \<and> get_index 0 [0, 10, 20] = Inr (Some 1)"
proof -
  have s: "sorted_wrt (<) [0, 10, 20 :: real]" "2 \<le> length [0, 10, 20 :: real]"
    by simp_all
  note t = get_index_amended[OF s]
  have "get_index 25 [0, 10, 20] = Inr None" using t[of 25] by simp
  moreover have "get_index (-5) [0, 10, 20] = Inr (Some 0)" using t[of "-5"] by simp
  moreover have "get_index 7 [0, 10, 20] = Inr (Some 1)"
  proof -
    from t[of 7] obtain j where j: "get_index 7 [0, 10, 20] = Inr (Some j)" "1 \<le> j"
      "\<forall>m. 1 \<le> m \<and> m < j \<longrightarrow> [0, 10, 20 :: real] ! m < 7" by auto
    have "j = 1"
    proof (rule ccontr)
      assume "j \<noteq> 1"
      with j(2) have "1 \<le> (1::nat) \<and> 1 < j" by simp
      with j(3) have "[0, 10, 20 :: real] ! 1 < 7" by blast
      then show False by simp
    qed
    with j(1) show ?thesis by simp
  qed
  moreover have "get_index 10 [0, 10, 20] = Inr (Some 1)"
  proof -
    from t[of 0] have "\<forall>k. 1 \<le> k \<and> k < length [0, 10, 20 :: real]
      \<longrightarrow> get_index ([0, 10, 20] ! k) [0, 10, 20] = Inr (Some k)" by blast
    then have "1 \<le> (1::nat) \<and> 1 < length [0, 10, 20 :: real]
      \<longrightarrow> get_index ([0, 10, 20] ! 1) [0, 10, 20] = Inr (Some 1)" by blast
    then show ?thesis by simp
  qed
  moreover have "get_index 0 [0, 10, 20] = Inr (Some 1)" using t[of 0] by simp
  ultimately show ?thesis using s by simp
qed


subsection \<open>Interpolation: results, breakpoints, monotonicity\<close>

lemma linear_interpolate_returns:
  assumes "2 \<le> length x_data" "sorted_wrt (<) x_data" "length y_data = length x_data"
  shows "\<exists>v. linear_interpolate t x_data y_data = Inr v"
  using linear_interpolate_interval[OF assms, of t] by blast


lemma linear_interpolate_antitone:
  assumes len: "2 \<le> length x_data" and sorted: "sorted_wrt (<) x_data"
    and ylen: "length y_data = length x_data" and decr: "sorted_wrt (>) y_data"
    and le: "a1 \<le> a2"
  shows "\<exists>v1 v2. linear_interpolate a1 x_data y_data = Inr v1
      \<and> linear_interpolate a2 x_data y_data = Inr v2 \<and> v2 \<le> v1"
proof -
  let ?f = "\<lambda>i t. y_data ! (i - 1) + (y_data ! i - y_data ! (i - 1))
                  / (x_data ! i - x_data ! (i - 1)) * (t - x_data ! (i - 1))"
  have x_less: "x_data ! i < x_data ! j" if "i < j" "j < length x_data" for i j
    using sorted that by (simp add: sorted_wrt_iff_nth_less)
  have y_less: "y_data ! j < y_data ! i" if "i < j" "j < length x_data" for i j
    using decr that ylen by (simp add: sorted_wrt_iff_nth_less)
  have x_le: "x_data ! i \<le> x_data ! j" if "i \<le> j" "j < length x_data" for i j
    using x_less[of i j] that by (cases "i = j") auto
  have y_le: "y_data ! j \<le> y_data ! i" if "i \<le> j" "j < length x_data" for i j
    using y_less[of i j] that by (cases "i = j") auto
  have slope: "(y_data ! i - y_data ! (i - 1)) / (x_data ! i - x_data ! (i - 1)) < 0"
    if "1 \<le> i" "i < length x_data" for i
    using x_less[of "i - 1" i] y_less[of "i - 1" i] that
    by (simp add: divide_neg_pos)
  have piece: "?f i t2 \<le> ?f i t1" if "1 \<le> i" "i < length x_data" "t1 \<le> t2" for i t1 t2
  proof -
    have "t1 - x_data ! (i - 1) \<le> t2 - x_data ! (i - 1)" using that(3) by simp
    from mult_left_mono_neg[OF this less_imp_le[OF slope[OF that(1,2)]]]
    show ?thesis by (rule add_left_mono)
  qed
  have at_right: "?f i (x_data ! i) = y_data ! i" if "1 \<le> i" "i < length x_data" for i
    using x_less[of "i - 1" i] that by simp
  have at_left: "?f i (x_data ! (i - 1)) = y_data ! (i - 1)" for i
    by simp
  from linear_interpolate_interval[OF len sorted ylen, of a1]
  obtain i1 where i1: "1 \<le> i1" "i1 < length x_data"
    "linear_interpolate a1 x_data y_data = Inr (?f i1 a1)"
    "a1 \<le> x_data ! i1 \<or> i1 = length x_data - 1"
    "x_data ! (i1 - 1) < a1 \<or> i1 = 1" by blast
  from linear_interpolate_interval[OF len sorted ylen, of a2]
  obtain i2 where i2: "1 \<le> i2" "i2 < length x_data"
    "linear_interpolate a2 x_data y_data = Inr (?f i2 a2)"
    "a2 \<le> x_data ! i2 \<or> i2 = length x_data - 1"
    "x_data ! (i2 - 1) < a2 \<or> i2 = 1" by blast
  have "?f i2 a2 \<le> ?f i1 a1"
  proof (cases i1 i2 rule: linorder_cases)
    case equal
    with piece[OF i1(1,2) le] show ?thesis by simp
  next
    case less
    with i2(2) i1(4) have a1: "a1 \<le> x_data ! i1" by auto
    from less i1(1) i2(5) have a2: "x_data ! (i2 - 1) \<le> a2" by auto
    have "?f i2 a2 \<le> ?f i2 (x_data ! (i2 - 1))" using piece[OF i2(1,2) a2] .
    also have "\<dots> = y_data ! (i2 - 1)" by simp
    also have "\<dots> \<le> y_data ! i1" using y_le[of i1 "i2 - 1"] less i2(2) by simp
    also have "\<dots> = ?f i1 (x_data ! i1)" using at_right[OF i1(1,2)] by simp
    also have "\<dots> \<le> ?f i1 a1" using piece[OF i1(1,2) a1] .
    finally show ?thesis .
  next
    case greater
    with i1(2) i2(4) have "a2 \<le> x_data ! i2" by auto
    moreover from greater i2(1) i1(5) have "x_data ! (i1 - 1) < a1" by auto
    moreover have "x_data ! i2 \<le> x_data ! (i1 - 1)" using x_le[of i2 "i1 - 1"] greater i1(2) by simp
    ultimately show ?thesis using le by simp
  qed
  with i1(3) i2(3) show ?thesis by simp
qed


subsection \<open>The accessors on the table\<close>

lemma table_decreasing:
  "sorted_wrt (>) (pressure standard_atmosphere_lookup)"
  "sorted_wrt (>) (density standard_atmosphere_lookup)"
  by (simp_all add: standard_atmosphere_lookup_def)


lemma table_len2: "2 \<le> length (altitude standard_atmosphere_lookup)"
  by (simp add: table_lengths)

lemma out_of_bounds_eq: "out_of_bounds a = Inr (a < -1000 \<or> 80000 < a)"
  by (simp add: out_of_bounds_def py_get_def standard_atmosphere_lookup_def)

lemma table_interpolate_returns:
  "\<exists>v. linear_interpolate a (altitude standard_atmosphere_lookup)
         (pressure standard_atmosphere_lookup) = Inr v"
  "\<exists>v. linear_interpolate a (altitude standard_atmosphere_lookup)
         (temperature standard_atmosphere_lookup) = Inr v"
  "\<exists>v. linear_interpolate a (altitude standard_atmosphere_lookup)
         (density standard_atmosphere_lookup) = Inr v"
  "\<exists>v. linear_interpolate a (altitude standard_atmosphere_lookup)
         (dynamic_viscosity standard_atmosphere_lookup) = Inr v"
  by (rule linear_interpolate_returns[OF table_len2 table_sorted], simp add: table_lengths)+

lemma get_pressure_eq:
  "get_pressure a =
     (if a < -1000 \<or> 80000 < a
      then [''StandardAtmosphere get_pressure() altitude out of bounds, proceeding with best available data'']
      else [],
      case linear_interpolate a (altitude standard_atmosphere_lookup)
             (pressure standard_atmosphere_lookup) of
        Inl e \<Rightarrow> Inl e
      | Inr p \<Rightarrow> Inr ((if p < 0 then 0 else p) * 10000))"
  by (simp add: get_pressure_def out_of_bounds_eq math_pow_def Let_def split: sum.splits)

lemma get_temperature_eq:
  "get_temperature a =
     (if a < -1000 \<or> 80000 < a
      then [''StandardAtmosphere get_temperature() altitude out of bounds, proceeding with best available data'']
      else [],
      linear_interpolate a (altitude standard_atmosphere_lookup)
        (temperature standard_atmosphere_lookup))"
  by (simp add: get_temperature_def out_of_bounds_eq Let_def split: sum.splits)

lemma get_density_eq:
  "get_density a =
     (if a < -1000 \<or> 80000 < a
      then [''StandardAtmosphere get_density() altitude out of bounds, proceeding with best available data'']
      else [],
      case linear_interpolate a (altitude standard_atmosphere_lookup)
             (density standard_atmosphere_lookup) of
        Inl e \<Rightarrow> Inl e
      | Inr d \<Rightarrow> Inr (if d < 0 then 0 else d))"
  by (simp add: get_density_def out_of_bounds_eq Let_def split: sum.splits)

lemma get_dynamic_viscocity_eq:
  "get_dynamic_viscocity a =
     (if a < -1000 \<or> 80000 < a
      then [''StandardAtmosphere get_dynamic_viscocity() altitude out of bounds, proceeding with best available data'']
      else [],
      case linear_interpolate a (altitude standard_atmosphere_lookup)
             (dynamic_viscosity standard_atmosphere_lookup) of
        Inl e \<Rightarrow> Inl e
      | Inr v \<Rightarrow> Inr ((if v < 0 then 0 else v) / 100000))"
  by (simp add: get_dynamic_viscocity_def out_of_bounds_eq math_pow_def Let_def
        split: sum.splits)

subsection \<open>The linear interpolator\<close>

text \<open>
  Claim C2. For parallel sequences, \<open>x_data\<close> strictly increasing with at least two
  elements, \<open>get_index\<close> returns, and with its result turned into an index (the
  sentinel into the last index, 0 into 1) the interpolator reads positions
  \<open>index - 1\<close> and \<open>index\<close>, both in range, divides by a non-zero difference and
  returns \<open>y0 + ((y1 - y0) / (x1 - x0)) * (target_x - x0)\<close>.
\<close>

theorem linear_interpolate_formula:
  assumes "sorted_wrt (<) x_data" and "2 \<le> length x_data"
    and "length y_data = length x_data"
  shows "\<exists>r. get_index target_x x_data = Inr r \<and>
    (let index = (case r of None \<Rightarrow> length x_data - 1
                  | Some i \<Rightarrow> if i = 0 then 1 else i);
         x0 = x_data ! (index - 1); y0 = y_data ! (index - 1);
         x1 = x_data ! index; y1 = y_data ! index
     in 1 \<le> index \<and> index < length x_data \<and> x1 - x0 \<noteq> 0
        \<and> linear_interpolate target_x x_data y_data
            = Inr (y0 + ((y1 - y0) / (x1 - x0)) * (target_x - x0)))"
proof -
  from assms(2) have ne: "x_data \<noteq> []" by auto
  have "\<exists>r. get_index target_x x_data = Inr r
      \<and> (case r of None \<Rightarrow> True | Some i \<Rightarrow> i < length x_data)"
  proof (cases "last x_data < target_x")
    case True
    then show ?thesis using get_index_above[OF ne] by simp
  next
    case False
    show ?thesis
    proof (cases "target_x < x_data ! 0")
      case True
      with False ne show ?thesis using get_index_below[of x_data target_x] assms(2) by simp
    next
      case f: False
      with False get_index_inside[OF assms(2), of target_x] show ?thesis by auto
    qed
  qed
  then obtain r where r: "get_index target_x x_data = Inr r"
    and rb: "case r of None \<Rightarrow> True | Some i \<Rightarrow> i < length x_data" by blast
  define index where
    "index = (case r of None \<Rightarrow> length x_data - 1 | Some i \<Rightarrow> if i = 0 then 1 else i)"
  have b: "1 \<le> index" "index < length x_data"
    using rb assms(2) by (auto simp: index_def split: option.splits)
  have "x_data ! (index - 1) < x_data ! index"
    using assms(1) b by (simp add: sorted_wrt_iff_nth_less)
  then have nz: "x_data ! index - x_data ! (index - 1) \<noteq> 0" by simp
  from linear_interpolate_at_index[OF assms(2,1,3) r index_def b] nz b r
  show ?thesis unfolding index_def[symmetric] Let_def
    by (intro exI[of _ r]) (simp add: index_def[symmetric])
qed

theorem linear_interpolate_formula_witness:
  "sorted_wrt (<) [0, 10, 20 :: real] \<and> 2 \<le> length [0, 10, 20 :: real]
   \<and> length [5, 7, 4 :: real] = length [0, 10, 20 :: real]
   \<and> linear_interpolate 15 [0, 10, 20] [5, 7, 4] = Inr (7 + ((4 - 7) / (20 - 10)) * (15 - 10))"
proof -
  have h: "sorted_wrt (<) [0, 10, 20 :: real]" "2 \<le> length [0, 10, 20 :: real]"
    "length [5, 7, 4 :: real] = length [0, 10, 20 :: real]" by simp_all
  have g: "get_index 15 [0, 10, 20] = Inr (Some 2)"
    by (simp add: get_index_def py_get_def get_index_loop.simps)
  from linear_interpolate_formula[OF h, of 15] g h show ?thesis
    by (simp add: Let_def)
qed

subsection \<open>Results of the accessors\<close>




lemma accessor_returns:
  "\<exists>v. snd (get_pressure a) = Inr v"
  "\<exists>v. snd (get_temperature a) = Inr v"
  "\<exists>v. snd (get_density a) = Inr v"
  "\<exists>v. snd (get_dynamic_viscocity a) = Inr v"
proof -
  from table_interpolate_returns(1)[of a] obtain p where
    "linear_interpolate a (altitude standard_atmosphere_lookup)
       (pressure standard_atmosphere_lookup) = Inr p" by blast
  then have "snd (get_pressure a) = Inr ((if p < 0 then 0 else p) * 10000)"
    by (simp add: get_pressure_eq)
  then show "\<exists>v. snd (get_pressure a) = Inr v" ..
  from table_interpolate_returns(2)[of a]
  show "\<exists>v. snd (get_temperature a) = Inr v"
    by (simp add: get_temperature_eq)
  from table_interpolate_returns(3)[of a] obtain d where
    "linear_interpolate a (altitude standard_atmosphere_lookup)
       (density standard_atmosphere_lookup) = Inr d" by blast
  then have "snd (get_density a) = Inr (if d < 0 then 0 else d)"
    by (simp add: get_density_eq)
  then show "\<exists>v. snd (get_density a) = Inr v" ..
  from table_interpolate_returns(4)[of a] obtain v where
    "linear_interpolate a (altitude standard_atmosphere_lookup)
       (dynamic_viscosity standard_atmosphere_lookup) = Inr v" by blast
  then have "snd (get_dynamic_viscocity a) = Inr ((if v < 0 then 0 else v) / 100000)"
    by (simp add: get_dynamic_viscocity_eq)
  then show "\<exists>v. snd (get_dynamic_viscocity a) = Inr v" ..
qed

lemma get_standard_atmosphere_eq:
  assumes "snd (get_pressure a) = Inr p" "snd (get_temperature a) = Inr t"
    "snd (get_dynamic_viscocity a) = Inr mu" "snd (get_density a) = Inr rho"
  shows "get_standard_atmosphere a =
    (fst (get_pressure a) @ fst (get_temperature a) @ fst (get_dynamic_viscocity a)
       @ fst (get_density a),
     Inr (Map.empty(''pressure'' \<mapsto> p, ''temperature'' \<mapsto> t,
            ''dynamic_viscosity'' \<mapsto> mu, ''density'' \<mapsto> rho, ''altitude'' \<mapsto> a)))"
  using assms unfolding get_standard_atmosphere_def
  by (cases "get_pressure a"; cases "get_temperature a"; cases "get_dynamic_viscocity a";
      cases "get_density a") simp

text \<open>The equations that evaluate the accessors at a given altitude.\<close>

lemmas eval_simps =
  get_pressure_eq get_temperature_eq get_density_eq get_dynamic_viscocity_eq
  linear_interpolate_def get_index_def get_index_loop.simps py_get_def py_truediv_def
  standard_atmosphere_lookup_def Let_def

subsection \<open>Exact table recovery\<close>



subsection \<open>Clamping\<close>

text \<open>
  Claim C4. For every altitude, \<open>get_pressure\<close>, \<open>get_density\<close> and
  \<open>get_dynamic_viscocity\<close> return a value, and that value is not negative.
\<close>

theorem clamping_invariant:
  "\<exists>p d v. snd (get_pressure a) = Inr p \<and> 0 \<le> p
      \<and> snd (get_density a) = Inr d \<and> 0 \<le> d
      \<and> snd (get_dynamic_viscocity a) = Inr v \<and> 0 \<le> v"
proof -
  from table_interpolate_returns(1)[of a] obtain p where
    "linear_interpolate a (altitude standard_atmosphere_lookup)
       (pressure standard_atmosphere_lookup) = Inr p" by blast
  then have P: "\<exists>p. snd (get_pressure a) = Inr p \<and> 0 \<le> p"
    by (simp add: get_pressure_eq)
  from table_interpolate_returns(3)[of a] obtain d where
    "linear_interpolate a (altitude standard_atmosphere_lookup)
       (density standard_atmosphere_lookup) = Inr d" by blast
  then have D: "\<exists>d. snd (get_density a) = Inr d \<and> 0 \<le> d"
    by (simp add: get_density_eq)
  from table_interpolate_returns(4)[of a] obtain v where
    "linear_interpolate a (altitude standard_atmosphere_lookup)
       (dynamic_viscosity standard_atmosphere_lookup) = Inr v" by blast
  then have "snd (get_dynamic_viscocity a) = Inr ((if v < 0 then 0 else v) / 100000)"
    by (simp add: get_dynamic_viscocity_eq)
  moreover have "0 \<le> (if v < 0 then 0 else v) / 100000" by simp
  ultimately have V: "\<exists>v. snd (get_dynamic_viscocity a) = Inr v \<and> 0 \<le> v"
    by blast
  from P D V show ?thesis by blast
qed

theorem clamping_invariant_witness:
  "snd (get_pressure 1000000) = Inr 0 \<and> snd (get_density 1000000) = Inr 0
   \<and> snd (get_dynamic_viscocity 1000000) = Inr 0
   \<and> snd (get_pressure (-1000000)) = Inr 12701300 \<and> snd (get_density (-1000000)) = Inr 123.225
   \<and> snd (get_dynamic_viscocity (-1000000)) = Inr 0.00033789"
  using clamping_invariant[of 1000000] clamping_invariant[of "-1000000"]
  by (simp add: eval_simps)

subsection \<open>The out-of-bounds warning\<close>

text \<open>
  Claim C5. The table spans the altitudes from -1000 to 80000. Each of the four
  accessors prints its warning line exactly when the altitude is below -1000 or above
  80000, and prints nothing otherwise (so nothing at -1000 and at 80000 themselves).
  Warned or not, it returns a value, and that value is the interpolated one after the
  accessor's clamp and unit conversion: the bounds check has no part in it.
\<close>

theorem warning_policy:
  "altitude standard_atmosphere_lookup ! 0 = -1000
   \<and> last (altitude standard_atmosphere_lookup) = 80000
   \<and> fst (get_pressure a) =
       (if a < -1000 \<or> 80000 < a
        then [''StandardAtmosphere get_pressure() altitude out of bounds, proceeding with best available data'']
        else [])
   \<and> fst (get_temperature a) =
       (if a < -1000 \<or> 80000 < a
        then [''StandardAtmosphere get_temperature() altitude out of bounds, proceeding with best available data'']
        else [])
   \<and> fst (get_density a) =
       (if a < -1000 \<or> 80000 < a
        then [''StandardAtmosphere get_density() altitude out of bounds, proceeding with best available data'']
        else [])
   \<and> fst (get_dynamic_viscocity a) =
       (if a < -1000 \<or> 80000 < a
        then [''StandardAtmosphere get_dynamic_viscocity() altitude out of bounds, proceeding with best available data'']
        else [])
   \<and> (\<exists>p. linear_interpolate a (altitude standard_atmosphere_lookup)
              (pressure standard_atmosphere_lookup) = Inr p
          \<and> snd (get_pressure a) = Inr ((if p < 0 then 0 else p) * 10 ^ 4))
   \<and> (\<exists>t. linear_interpolate a (altitude standard_atmosphere_lookup)
              (temperature standard_atmosphere_lookup) = Inr t
          \<and> snd (get_temperature a) = Inr t)
   \<and> (\<exists>d. linear_interpolate a (altitude standard_atmosphere_lookup)
              (density standard_atmosphere_lookup) = Inr d
          \<and> snd (get_density a) = Inr (if d < 0 then 0 else d))
   \<and> (\<exists>v. linear_interpolate a (altitude standard_atmosphere_lookup)
              (dynamic_viscosity standard_atmosphere_lookup) = Inr v
          \<and> snd (get_dynamic_viscocity a) = Inr ((if v < 0 then 0 else v) / 10 ^ 5))"
proof -
  have t: "altitude standard_atmosphere_lookup ! 0 = -1000"
    "last (altitude standard_atmosphere_lookup) = 80000"
    by (simp_all add: standard_atmosphere_lookup_def)
  have o: "fst (get_pressure a) =
       (if a < -1000 \<or> 80000 < a
        then [''StandardAtmosphere get_pressure() altitude out of bounds, proceeding with best available data'']
        else [])"
    "fst (get_temperature a) =
       (if a < -1000 \<or> 80000 < a
        then [''StandardAtmosphere get_temperature() altitude out of bounds, proceeding with best available data'']
        else [])"
    "fst (get_density a) =
       (if a < -1000 \<or> 80000 < a
        then [''StandardAtmosphere get_density() altitude out of bounds, proceeding with best available data'']
        else [])"
    "fst (get_dynamic_viscocity a) =
       (if a < -1000 \<or> 80000 < a
        then [''StandardAtmosphere get_dynamic_viscocity() altitude out of bounds, proceeding with best available data'']
        else [])"
    by (simp_all only: get_pressure_eq get_temperature_eq get_density_eq
          get_dynamic_viscocity_eq fst_conv)
  from table_interpolate_returns(1)[of a] obtain p where
    p: "linear_interpolate a (altitude standard_atmosphere_lookup)
              (pressure standard_atmosphere_lookup) = Inr p" by blast
  have vp: "\<exists>p. linear_interpolate a (altitude standard_atmosphere_lookup)
              (pressure standard_atmosphere_lookup) = Inr p
          \<and> snd (get_pressure a) = Inr ((if p < 0 then 0 else p) * 10 ^ 4)"
    by (rule exI[of _ p]) (simp add: get_pressure_eq p)
  from table_interpolate_returns(2)[of a] obtain t where
    t': "linear_interpolate a (altitude standard_atmosphere_lookup)
              (temperature standard_atmosphere_lookup) = Inr t" by blast
  have vt: "\<exists>t. linear_interpolate a (altitude standard_atmosphere_lookup)
              (temperature standard_atmosphere_lookup) = Inr t
          \<and> snd (get_temperature a) = Inr t"
    by (rule exI[of _ t]) (simp add: get_temperature_eq t')
  from table_interpolate_returns(3)[of a] obtain d where
    d: "linear_interpolate a (altitude standard_atmosphere_lookup)
              (density standard_atmosphere_lookup) = Inr d" by blast
  have vd: "\<exists>d. linear_interpolate a (altitude standard_atmosphere_lookup)
              (density standard_atmosphere_lookup) = Inr d
          \<and> snd (get_density a) = Inr (if d < 0 then 0 else d)"
    by (rule exI[of _ d]) (simp add: get_density_eq d)
  from table_interpolate_returns(4)[of a] obtain v where
    v: "linear_interpolate a (altitude standard_atmosphere_lookup)
              (dynamic_viscosity standard_atmosphere_lookup) = Inr v" by blast
  have vv: "\<exists>v. linear_interpolate a (altitude standard_atmosphere_lookup)
              (dynamic_viscosity standard_atmosphere_lookup) = Inr v
          \<and> snd (get_dynamic_viscocity a) = Inr ((if v < 0 then 0 else v) / 10 ^ 5)"
    by (rule exI[of _ v]) (simp add: get_dynamic_viscocity_eq v)
  from t o vp vt vd vv show ?thesis by (intro conjI)
qed

theorem warning_policy_witness:
  "fst (get_pressure 90000) =
     [''StandardAtmosphere get_pressure() altitude out of bounds, proceeding with best available data'']
   \<and> snd (get_pressure 90000) = Inr 0
   \<and> fst (get_temperature (-1000)) = [] \<and> snd (get_temperature (-1000)) = Inr 21.5
   \<and> fst (get_density 80000) = [] \<and> snd (get_density 80000) = Inr 0.00001846
   \<and> fst (get_dynamic_viscocity (-1001)) =
     [''StandardAtmosphere get_dynamic_viscocity() altitude out of bounds, proceeding with best available data'']"
  using warning_policy[of 90000] warning_policy[of "-1000"] warning_policy[of 80000]
    warning_policy[of "-1001"]
  by (simp add: eval_simps)

subsection \<open>get_standard_atmosphere\<close>

text \<open>
  Claim C6. For every altitude the four accessors and \<open>get_standard_atmosphere\<close>
  return, and the returned dictionary holds under \<open>pressure\<close>, \<open>temperature\<close>,
  \<open>dynamic_viscosity\<close> and \<open>density\<close> the values of the four accessors at that
  altitude, under \<open>altitude\<close> the altitude itself, and no other key.
\<close>

theorem aggregate_consistency:
  "\<exists>p t mu rho m.
      snd (get_pressure a) = Inr p \<and> snd (get_temperature a) = Inr t
    \<and> snd (get_dynamic_viscocity a) = Inr mu \<and> snd (get_density a) = Inr rho
    \<and> snd (get_standard_atmosphere a) = Inr m
    \<and> m ''pressure'' = Some p \<and> m ''temperature'' = Some t
    \<and> m ''dynamic_viscosity'' = Some mu \<and> m ''density'' = Some rho
    \<and> m ''altitude'' = Some a
    \<and> dom m = {''altitude'', ''density'', ''dynamic_viscosity'', ''temperature'', ''pressure''}"
proof -
  from accessor_returns[of a] obtain p t rho mu where
    v: "snd (get_pressure a) = Inr p" "snd (get_temperature a) = Inr t"
      "snd (get_dynamic_viscocity a) = Inr mu" "snd (get_density a) = Inr rho"
    by blast
  define m where "m = Map.empty(''pressure'' \<mapsto> p, ''temperature'' \<mapsto> t,
            ''dynamic_viscosity'' \<mapsto> mu, ''density'' \<mapsto> rho, ''altitude'' \<mapsto> a)"
  have r: "snd (get_standard_atmosphere a) = Inr m"
    unfolding m_def by (simp only: get_standard_atmosphere_eq[OF v] snd_conv)
  have l: "m ''pressure'' = Some p" "m ''temperature'' = Some t"
    "m ''dynamic_viscosity'' = Some mu" "m ''density'' = Some rho"
    "m ''altitude'' = Some a"
    unfolding m_def by simp_all
  have d: "dom m = {''altitude'', ''density'', ''dynamic_viscosity'', ''temperature'', ''pressure''}"
    unfolding m_def by simp
  show ?thesis
    by (rule exI[of _ p], rule exI[of _ t], rule exI[of _ mu], rule exI[of _ rho],
        rule exI[of _ m]) (simp only: v r l d simp_thms)
qed

theorem aggregate_consistency_witness:
  "\<exists>m. snd (get_standard_atmosphere 500) = Inr m
      \<and> m ''pressure'' = Some 95590 \<and> m ''temperature'' = Some 11.75
      \<and> m ''dynamic_viscosity'' = Some 0.000017735 \<and> m ''density'' = Some 1.1685
      \<and> m ''altitude'' = Some 500"
proof -
  have e: "snd (get_pressure 500) = Inr 95590" "snd (get_temperature 500) = Inr 11.75"
    "snd (get_dynamic_viscocity 500) = Inr 0.000017735" "snd (get_density 500) = Inr 1.1685"
    by (simp_all add: eval_simps)
  from aggregate_consistency[of 500] obtain p t mu rho m where
    v: "snd (get_pressure 500) = Inr p" "snd (get_temperature 500) = Inr t"
      "snd (get_dynamic_viscocity 500) = Inr mu" "snd (get_density 500) = Inr rho"
      "snd (get_standard_atmosphere 500) = Inr m"
      "m ''pressure'' = Some p" "m ''temperature'' = Some t"
      "m ''dynamic_viscosity'' = Some mu" "m ''density'' = Some rho"
      "m ''altitude'' = Some 500"
    by (elim exE conjE) (rule that; assumption)
  from v(1-4) e have "p = 95590" "t = 11.75" "mu = 0.000017735" "rho = 1.1685"
    by simp_all
  with v(5-10) show ?thesis
    by (intro exI[of _ m]) (simp only: simp_thms)
qed

subsection \<open>No error for any altitude\<close>


subsection \<open>Concrete scenarios\<close>


subsection \<open>Monotonicity of pressure and density\<close>

text \<open>
  Claim C10. \<open>get_pressure\<close> and \<open>get_density\<close> are non-increasing over all
  altitudes: for \<open>a1 \<le> a2\<close> both return at both altitudes, and the value at \<open>a2\<close>
  is at most the value at \<open>a1\<close>.
\<close>

theorem monotone_pressure_density:
  assumes "a1 \<le> a2"
  shows "\<exists>p1 p2 d1 d2.
      snd (get_pressure a1) = Inr p1 \<and> snd (get_pressure a2) = Inr p2 \<and> p2 \<le> p1
    \<and> snd (get_density a1) = Inr d1 \<and> snd (get_density a2) = Inr d2 \<and> d2 \<le> d1"
proof -
  from linear_interpolate_antitone[OF table_len2 table_sorted _ table_decreasing(1) assms]
  obtain u1 u2 where u:
    "linear_interpolate a1 (altitude standard_atmosphere_lookup)
       (pressure standard_atmosphere_lookup) = Inr u1"
    "linear_interpolate a2 (altitude standard_atmosphere_lookup)
       (pressure standard_atmosphere_lookup) = Inr u2" "u2 \<le> u1"
    by (auto simp: table_lengths)
  from linear_interpolate_antitone[OF table_len2 table_sorted _ table_decreasing(2) assms]
  obtain w1 w2 where w:
    "linear_interpolate a1 (altitude standard_atmosphere_lookup)
       (density standard_atmosphere_lookup) = Inr w1"
    "linear_interpolate a2 (altitude standard_atmosphere_lookup)
       (density standard_atmosphere_lookup) = Inr w2" "w2 \<le> w1"
    by (auto simp: table_lengths)
  have "snd (get_pressure a1) = Inr ((if u1 < 0 then 0 else u1) * 10000)"
    "snd (get_pressure a2) = Inr ((if u2 < 0 then 0 else u2) * 10000)"
    "snd (get_density a1) = Inr (if w1 < 0 then 0 else w1)"
    "snd (get_density a2) = Inr (if w2 < 0 then 0 else w2)"
    using u w by (simp_all add: get_pressure_eq get_density_eq)
  moreover have "(if u2 < 0 then 0 else u2) * 10000 \<le> (if u1 < 0 then 0 else u1) * 10000"
    "(if w2 < 0 then 0 else w2) \<le> (if w1 < 0 then 0 else w1)"
    using u(3) w(3) by auto
  ultimately show ?thesis by blast
qed

theorem monotone_pressure_density_witness:
  "(500::real) \<le> 90000
   \<and> snd (get_pressure 500) = Inr 95590 \<and> snd (get_pressure 90000) = Inr 0
   \<and> snd (get_density 500) = Inr 1.1685 \<and> snd (get_density 90000) = Inr 0
   \<and> (0::real) \<le> 95590 \<and> (0::real) \<le> 1.1685"
proof -
  have h: "(500::real) \<le> 90000" by simp
  from monotone_pressure_density[OF h] h show ?thesis
    by (simp add: eval_simps)
qed

end
